theory Spec2Isabelle
  imports
    Main
    "HOL-Library.Multiset"
    "HOL-Library.Char_ord"
    "HOL-Library.List_Lexorder"
    "HOL-Library.Sublist"
begin

section \<open>Python strings\<close>

text \<open>
  A Python \<open>str\<close> is modelled as a \<open>string\<close>, the list of the bytes of its UTF-8
  encoding. Comparing two such lists lexicographically, byte by byte
  (\<open>HOL-Library.List_Lexorder\<close> over \<open>HOL-Library.Char_ord\<close>), orders them as Python orders
  the strings by code point, and one string occurs in another as bytes exactly when it
  does as code points.

  \<open>str.lower\<close> rests on the case tables of Unicode. It is a parameter, \<open>lower\<close>, of every
  function below that calls it, so that what is proved holds for whatever \<open>str.lower\<close>
  computes, on every string.
\<close>

text \<open>\<open>a in b\<close> on two strings: \<open>a\<close> occurs in \<open>b\<close> as a contiguous run.\<close>

definition str_in :: "string \<Rightarrow> string \<Rightarrow> bool" where
  "str_in a b = sublist a b"

text \<open>
  The code points that \<open>str.isspace\<close> accepts, which \<open>str.strip\<close> removes, in UTF-8:
  U+0009 to U+000D, U+001C to U+0020, U+0085, U+00A0, U+1680, U+2000 to U+200A, U+2028,
  U+2029, U+202F, U+205F and U+3000.
\<close>

definition space_seqs :: "string list" where
  "space_seqs =
     [[CHR 0x09], [CHR 0x0A], [CHR 0x0B], [CHR 0x0C], [CHR 0x0D],
      [CHR 0x1C], [CHR 0x1D], [CHR 0x1E], [CHR 0x1F], [CHR 0x20],
      [CHR 0xC2, CHR 0x85], [CHR 0xC2, CHR 0xA0],
      [CHR 0xE1, CHR 0x9A, CHR 0x80],
      [CHR 0xE2, CHR 0x80, CHR 0x80], [CHR 0xE2, CHR 0x80, CHR 0x81],
      [CHR 0xE2, CHR 0x80, CHR 0x82], [CHR 0xE2, CHR 0x80, CHR 0x83],
      [CHR 0xE2, CHR 0x80, CHR 0x84], [CHR 0xE2, CHR 0x80, CHR 0x85],
      [CHR 0xE2, CHR 0x80, CHR 0x86], [CHR 0xE2, CHR 0x80, CHR 0x87],
      [CHR 0xE2, CHR 0x80, CHR 0x88], [CHR 0xE2, CHR 0x80, CHR 0x89],
      [CHR 0xE2, CHR 0x80, CHR 0x8A],
      [CHR 0xE2, CHR 0x80, CHR 0xA8], [CHR 0xE2, CHR 0x80, CHR 0xA9],
      [CHR 0xE2, CHR 0x80, CHR 0xAF],
      [CHR 0xE2, CHR 0x81, CHR 0x9F],
      [CHR 0xE3, CHR 0x80, CHR 0x80]]"

text \<open>
  \<open>s.lstrip()\<close> and \<open>s.rstrip()\<close>: as long as the string starts (ends) with a blank code
  point, that one is removed. \<open>s.strip()\<close> does both.
\<close>

function lstrip :: "string \<Rightarrow> string" where
  "lstrip s =
     (case find (\<lambda>w. prefix w s) space_seqs of
        None \<Rightarrow> s
      | Some w \<Rightarrow> lstrip (drop (length w) s))"
  by pat_completeness auto
termination
proof (relation "measure length")
  show "wf (measure length)" by simp
next
  fix s :: string and w
  assume "find (\<lambda>w. prefix w s) space_seqs = Some w"
  then have "w \<in> set space_seqs" and p: "prefix w s"
    by (auto simp: find_Some_iff)
  then have "w \<noteq> []" by (auto simp: space_seqs_def)
  with p have "s \<noteq> []" by auto
  with \<open>w \<noteq> []\<close> show "(drop (length w) s, s) \<in> measure length" by simp
qed

function rstrip :: "string \<Rightarrow> string" where
  "rstrip s =
     (case find (\<lambda>w. suffix w s) space_seqs of
        None \<Rightarrow> s
      | Some w \<Rightarrow> rstrip (take (length s - length w) s))"
  by pat_completeness auto
termination
proof (relation "measure length")
  show "wf (measure length)" by simp
next
  fix s :: string and w
  assume "find (\<lambda>w. suffix w s) space_seqs = Some w"
  then have "w \<in> set space_seqs" and p: "suffix w s"
    by (auto simp: find_Some_iff)
  then have "w \<noteq> []" by (auto simp: space_seqs_def)
  with p have "s \<noteq> []" by auto
  with \<open>w \<noteq> []\<close> show "(take (length s - length w) s, s) \<in> measure length" by simp
qed

declare lstrip.simps [simp del] rstrip.simps [simp del]

definition strip :: "string \<Rightarrow> string" where
  "strip s = rstrip (lstrip s)"

text \<open>\<open>sep.join(xs)\<close>.\<close>

fun join :: "string \<Rightarrow> string list \<Rightarrow> string" where
  "join sep [] = []"
| "join sep [x] = x"
| "join sep (x # y # ys) = x @ sep @ join sep (y # ys)"

text \<open>\<open>s.split(sep)\<close> for a separator of one character: never the empty list.\<close>

fun split :: "char \<Rightarrow> string \<Rightarrow> string list" where
  "split sep [] = [[]]"
| "split sep (c # cs) =
     (if c = sep then [] # split sep cs
      else (case split sep cs of [] \<Rightarrow> [[c]] | w # ws \<Rightarrow> (c # w) # ws))"

text \<open>\<open>s.rfind(c)\<close>: the last index of \<open>c\<close>, \<open>None\<close> where Python returns \<open>-1\<close>.\<close>

fun rfind :: "char \<Rightarrow> string \<Rightarrow> nat option" where
  "rfind c [] = None"
| "rfind c (x # xs) =
     (case rfind c xs of
        Some i \<Rightarrow> Some (Suc i)
      | None \<Rightarrow> if x = c then Some 0 else None)"

text \<open>\<open>str(n)\<close> for a natural number: its decimal digits.\<close>

definition digit_char :: "nat \<Rightarrow> char" where
  "digit_char d = char_of (48 + d)"

function str_of_nat :: "nat \<Rightarrow> string" where
  "str_of_nat n = (if n < 10 then [digit_char n] else str_of_nat (n div 10) @ [digit_char (n mod 10)])"
  by pat_completeness auto
termination
  by (relation "measure (\<lambda>n. n)") auto

declare str_of_nat.simps [simp del]

section \<open>\<open>pathlib\<close> on POSIX\<close>

text \<open>
  A \<open>PurePosixPath\<close> is its root (\<open>''''\<close>, \<open>''/''\<close> or \<open>''//''\<close>) and its components.
  Parsing drops empty components and \<open>''.''\<close>; a string that starts with exactly two
  slashes has the root \<open>''//''\<close>.
\<close>

record pure_path =
  root :: string
  parts :: "string list"

definition is_part :: "string \<Rightarrow> bool" where
  "is_part x = (x \<noteq> [] \<and> x \<noteq> ''.'')"

definition parse_path :: "string \<Rightarrow> pure_path" where
  "parse_path s =
     (case s of
        [] \<Rightarrow> \<lparr>root = [], parts = []\<rparr>
      | c # _ \<Rightarrow>
          if c = CHR ''/'' then
            (let stripped = dropWhile (\<lambda>x. x = CHR ''/'') s
             in \<lparr>root = (if length s - length stripped = 2 then ''//'' else ''/''),
                 parts = filter is_part (split CHR ''/'' stripped)\<rparr>)
          else \<lparr>root = [], parts = filter is_part (split CHR ''/'' s)\<rparr>)"

text \<open>\<open>p / s\<close>: a segment with a root replaces the path, another one extends it.\<close>

definition truediv :: "pure_path \<Rightarrow> string \<Rightarrow> pure_path" where
  "truediv p s =
     (let q = parse_path s
      in if root q \<noteq> [] then q else \<lparr>root = root p, parts = parts p @ parts q\<rparr>)"

text \<open>\<open>str(p)\<close>.\<close>

definition str_of_path :: "pure_path \<Rightarrow> string" where
  "str_of_path p =
     (let s = root p @ join ''/'' (parts p) in if s = [] then ''.'' else s)"

text \<open>\<open>p.name\<close> and \<open>p.suffix\<close>.\<close>

definition path_name :: "pure_path \<Rightarrow> string" where
  "path_name p = (if parts p = [] then [] else last (parts p))"

definition path_suffix :: "pure_path \<Rightarrow> string" where
  "path_suffix p =
     (let nm = path_name p
      in case rfind CHR ''.'' nm of
           None \<Rightarrow> []
         | Some i \<Rightarrow> if 0 < i \<and> i + 1 < length nm then drop i nm else [])"

section \<open>The record store adapter\<close>

text \<open>
  What \<open>json.loads\<close> returns. A Python float is left abstract: no function of this
  program computes with one.
\<close>

typedecl py_float

datatype pyval =
    PNone
  | PBool bool
  | PInt int
  | PFloat py_float
  | PStr string
  | PList "pyval list"
  | PDict "(string \<times> pyval) list"

text \<open>
  A value of a column of the result row. \<open>json_extract\<close> gives NULL for a missing or null
  field, TEXT for a JSON string, array or object and INTEGER for a JSON integer or boolean.
  (REAL, for a JSON float, is left out.)
\<close>

datatype sql_value = SqlNull | SqlInteger int | SqlText string

text \<open>
  The row the query returns. The fields \<open>name\<close>, \<open>type\<close>, \<open>base\<close> and \<open>path\<close> of a model's
  configuration are strings when present; \<open>None\<close> is SQL NULL.
\<close>

record row =
  model_name :: "string option"
  model_type :: "string option"
  model_base :: "string option"
  trigger_phrases_json :: sql_value
  model_path :: "string option"

text \<open>The dictionary \<open>load_models\<close> builds for a row.\<close>

record model =
  name :: string
  type :: string
  subtype :: string
  triggers :: string
  path :: string

datatype py_exc =
    FileNotFoundError string
  | RuntimeError string
  | TypeError string
  | JSONDecodeError string
  | ValueError string
  | RecursionError string

fun exc_message :: "py_exc \<Rightarrow> string" where
  "exc_message (FileNotFoundError m) = m"
| "exc_message (RuntimeError m) = m"
| "exc_message (TypeError m) = m"
| "exc_message (JSONDecodeError m) = m"
| "exc_message (ValueError m) = m"
| "exc_message (RecursionError m) = m"

text \<open>Python's truth value of a column value: NULL, zero and the empty string are false.\<close>

fun truthy :: "sql_value \<Rightarrow> bool" where
  "truthy SqlNull = False"
| "truthy (SqlInteger i) = (i \<noteq> 0)"
| "truthy (SqlText s) = (s \<noteq> [])"

text \<open>
  \<open>json.loads\<close> is a parameter, \<open>loads\<close>, on strings: it gives the value it parses or the
  exception it raises. That is \<open>json.JSONDecodeError\<close> for a text that is no JSON; a plain
  \<open>ValueError\<close> (an integer of too many digits) and \<open>RecursionError\<close> (too deep a nesting)
  are raised as well. On a value that is no string \<open>json.loads\<close> raises \<open>TypeError\<close>.
\<close>

fun json_loads :: "(string \<Rightarrow> py_exc + pyval) \<Rightarrow> sql_value \<Rightarrow> py_exc + pyval" where
  "json_loads loads (SqlText s) = loads s"
| "json_loads loads (SqlInteger i) =
     Inl (TypeError ''the JSON object must be str, bytes or bytearray, not int'')"
| "json_loads loads SqlNull =
     Inl (TypeError ''the JSON object must be str, bytes or bytearray, not NoneType'')"

text \<open>The exceptions that \<open>except (json.JSONDecodeError, TypeError)\<close> catches.\<close>

fun caught :: "py_exc \<Rightarrow> bool" where
  "caught (JSONDecodeError m) = True"
| "caught (TypeError m) = True"
| "caught e = False"

fun is_list :: "pyval \<Rightarrow> bool" where
  "is_list (PList vs) = True"
| "is_list v = False"

fun list_items :: "pyval \<Rightarrow> pyval list" where
  "list_items (PList vs) = vs"
| "list_items v = []"

text \<open>
  Lines 57 to 59 of \<open>load_models\<close>, the body of the \<open>try\<close> statement: the list \<open>triggers\<close>,
  or the exception that is raised. \<open>str_of\<close> is Python's \<open>str\<close> on a parsed value, a
  parameter as well: the string, or the exception it raises.
\<close>

definition try_body ::
  "(string \<Rightarrow> py_exc + pyval) \<Rightarrow> (pyval \<Rightarrow> py_exc + string) \<Rightarrow> sql_value
     \<Rightarrow> py_exc + pyval list" where
  "try_body loads str_of trigger_phrases =
     (case json_loads loads trigger_phrases of
        Inl e \<Rightarrow> Inl e
      | Inr v \<Rightarrow>
          if \<not> is_list v then
            (case str_of v of Inl e \<Rightarrow> Inl e | Inr s \<Rightarrow> Inr [PStr s])
          else Inr (list_items v))"

text \<open>
  Lines 53 to 61 of \<open>load_models\<close>: the list \<open>triggers\<close>, or the exception that the
  \<open>except\<close> clause does not catch and that leaves the statement.
\<close>

definition parse_triggers ::
  "(string \<Rightarrow> py_exc + pyval) \<Rightarrow> (pyval \<Rightarrow> py_exc + string) \<Rightarrow> sql_value
     \<Rightarrow> py_exc + pyval list" where
  "parse_triggers loads str_of trigger_phrases =
     (if truthy trigger_phrases then
        (case try_body loads str_of trigger_phrases of
           Inr ts \<Rightarrow> Inr ts
         | Inl e \<Rightarrow> if caught e then Inr [] else Inl e)
      else Inr [])"

fun type_name :: "pyval \<Rightarrow> string" where
  "type_name PNone = ''NoneType''"
| "type_name (PBool b) = ''bool''"
| "type_name (PInt i) = ''int''"
| "type_name (PFloat f) = ''float''"
| "type_name (PStr s) = ''str''"
| "type_name (PList vs) = ''list''"
| "type_name (PDict kvs) = ''dict''"

text \<open>
  The items \<open>str.join\<close> reads, from index \<open>i\<close> on: it raises \<open>TypeError\<close> at the first
  item that is no string.
\<close>

fun str_items :: "nat \<Rightarrow> pyval list \<Rightarrow> py_exc + string list" where
  "str_items i [] = Inr []"
| "str_items i (PStr s # vs) =
     (case str_items (Suc i) vs of Inl e \<Rightarrow> Inl e | Inr ss \<Rightarrow> Inr (s # ss))"
| "str_items i (v # vs) =
     Inl (TypeError (''sequence item '' @ str_of_nat i @ '': expected str instance, ''
                     @ type_name v @ '' found''))"

text \<open>The join of the list \<open>triggers\<close> with a comma and a blank, or the empty string.\<close>

definition join_triggers :: "pyval list \<Rightarrow> py_exc + string" where
  "join_triggers ts =
     (if ts \<noteq> [] then
        (case str_items 0 ts of Inl e \<Rightarrow> Inl e | Inr ss \<Rightarrow> Inr (join '', '' ss))
      else Inr [])"

text \<open>\<open>x or d\<close> on an optional string: \<open>None\<close> and the empty string are false.\<close>

fun or_else :: "string option \<Rightarrow> string \<Rightarrow> string" where
  "or_else None d = d"
| "or_else (Some s) d = (if s \<noteq> [] then s else d)"

text \<open>The suffix of \<open>Path(model_path)\<close> if \<open>model_path\<close> is true, else the empty string.\<close>

fun ext_of :: "string option \<Rightarrow> string" where
  "ext_of None = []"
| "ext_of (Some p) = (if p \<noteq> [] then path_suffix (parse_path p) else [])"

definition display_name :: "row \<Rightarrow> string" where
  "display_name r = or_else (model_name r) ''Unknown'' @ ext_of (model_path r)"

text \<open>The dictionary that is built for a row, lines 67 to 73, for the string of its triggers.\<close>

definition model_of :: "row \<Rightarrow> string \<Rightarrow> model" where
  "model_of r t =
     \<lparr>name = display_name r,
      type = or_else (model_type r) ''Unknown'',
      subtype = or_else (model_base r) ''Unknown'',
      triggers = t,
      path = or_else (model_path r) []\<rparr>"

text \<open>
  The body of the loop over the rows. An exception that the \<open>try\<close> statement lets through
  leaves it, and so does one of the join.
\<close>

definition load_row ::
  "(string \<Rightarrow> py_exc + pyval) \<Rightarrow> (pyval \<Rightarrow> py_exc + string) \<Rightarrow> row \<Rightarrow> py_exc + model" where
  "load_row loads str_of r =
     (case parse_triggers loads str_of (trigger_phrases_json r) of
        Inl e \<Rightarrow> Inl e
      | Inr ts \<Rightarrow>
          (case join_triggers ts of
             Inl e \<Rightarrow> Inl e
           | Inr t \<Rightarrow> Inr (model_of r t)))"

fun load_rows ::
  "(string \<Rightarrow> py_exc + pyval) \<Rightarrow> (pyval \<Rightarrow> py_exc + string) \<Rightarrow> row list
     \<Rightarrow> py_exc + model list" where
  "load_rows loads str_of [] = Inr []"
| "load_rows loads str_of (r # rs) =
     (case load_row loads str_of r of
        Inl e \<Rightarrow> Inl e
      | Inr m \<Rightarrow>
          (case load_rows loads str_of rs of Inl e \<Rightarrow> Inl e | Inr ms \<Rightarrow> Inr (m # ms)))"

text \<open>
  \<open>ModelDatabase.load_models\<close>. \<open>db_exists\<close> is \<open>self.db_path.exists()\<close>; \<open>query\<close> is what the
  database gives: the rows, or the message of a \<open>sqlite3.Error\<close>. An exception of the loop
  is no \<open>sqlite3.Error\<close> and leaves the function as it is.
\<close>

definition load_models ::
  "(string \<Rightarrow> py_exc + pyval) \<Rightarrow> (pyval \<Rightarrow> py_exc + string) \<Rightarrow> pure_path \<Rightarrow> bool
     \<Rightarrow> string + row list \<Rightarrow> py_exc + model list" where
  "load_models loads str_of db db_exists query =
     (if \<not> db_exists then
        Inl (FileNotFoundError (''Database not found at: '' @ str_of_path db))
      else
        (case query of
           Inl e \<Rightarrow> Inl (RuntimeError (''Database error: '' @ e))
         | Inr rows \<Rightarrow> load_rows loads str_of rows))"

section \<open>The viewer\<close>

text \<open>
  \<open>sort_column\<close> holds one of the three keys of a model's dictionary that
  \<open>column_map\<close> can give: \<open>"name"\<close>, \<open>"type"\<close> and \<open>"subtype"\<close>.
\<close>

datatype column = ColName | ColType | ColSubtype

text \<open>\<open>x[self.sort_column]\<close>.\<close>

fun field :: "column \<Rightarrow> model \<Rightarrow> string" where
  "field ColName m = name m"
| "field ColType m = type m"
| "field ColSubtype m = subtype m"

text \<open>
  The fields of \<open>InvokeAIViewer\<close>, then what its widgets show: the values of the three
  inputs, the columns (label and width) and the rows of the table, the status line and its
  colour, and the text last copied to the clipboard.
\<close>

record viewer =
  data_path :: pure_path
  db_path :: pure_path
  all_models :: "model list"
  filtered_models :: "model list"
  sort_column :: column
  sort_reverse :: bool
  filter_name :: string
  filter_type :: string
  filter_subtype :: string
  input_name :: string
  input_type :: string
  input_subtype :: string
  table_columns :: "(string \<times> nat) list"
  table_rows :: "(string \<times> string \<times> string) list"
  status_text :: string
  status_color :: string
  clipboard :: "string option"

text \<open>The two sort indicators and the check mark, as UTF-8.\<close>

definition down_triangle :: string where
  "down_triangle = [CHR 0xE2, CHR 0x96, CHR 0xBC]"

definition up_triangle :: string where
  "up_triangle = [CHR 0xE2, CHR 0x96, CHR 0xB2]"

definition check_mark :: string where
  "check_mark = [CHR 0xE2, CHR 0x9C, CHR 0x93]"

text \<open>\<open>__init__\<close> and \<open>compose\<close>, for the two paths \<open>load_config\<close> returns.\<close>

definition init_viewer :: "pure_path \<Rightarrow> pure_path \<Rightarrow> viewer" where
  "init_viewer dp db =
     \<lparr>data_path = dp, db_path = db, all_models = [], filtered_models = [],
      sort_column = ColName, sort_reverse = False,
      filter_name = [], filter_type = [], filter_subtype = [],
      input_name = [], input_type = [], input_subtype = [],
      table_columns = [], table_rows = [],
      status_text = ''Loading models...'', status_color = ''white'',
      clipboard = None\<rparr>"

definition update_table :: "viewer \<Rightarrow> viewer" where
  "update_table s =
     s\<lparr>table_rows := map (\<lambda>m. (name m, type m, subtype m)) (filtered_models s)\<rparr>"

definition update_status_text :: "string \<Rightarrow> bool \<Rightarrow> viewer \<Rightarrow> viewer" where
  "update_status_text text error s =
     s\<lparr>status_text := text, status_color := (if error then ''red'' else ''white'')\<rparr>"

definition update_status :: "viewer \<Rightarrow> viewer" where
  "update_status s =
     (let total = length (all_models s);
          filtered = length (filtered_models s);
          msg = (if filtered = total then
                   ''Showing all '' @ str_of_nat total @ '' models | Database: ''
                   @ str_of_path (db_path s)
                 else
                   ''Showing '' @ str_of_nat filtered @ '' of '' @ str_of_nat total
                   @ '' models | Database: '' @ str_of_path (db_path s))
      in update_status_text msg False s)"

text \<open>
  \<open>on_mount\<close>, for the result of \<open>self.db.load_models()\<close>. Any exception of the load is
  caught and shown.
\<close>

definition on_mount :: "py_exc + model list \<Rightarrow> viewer \<Rightarrow> viewer" where
  "on_mount loaded s =
     (let s1 = s\<lparr>table_columns :=
                   table_columns s
                   @ [(''Model '' @ down_triangle, 120), (''Type'', 24), (''Base Model'', 16)]\<rparr>
      in case loaded of
           Inr models \<Rightarrow>
             update_status (update_table (s1\<lparr>all_models := models, filtered_models := models\<rparr>))
         | Inl e \<Rightarrow> update_status_text (''Error loading models: '' @ exc_message e) True s1)"

text \<open>
  \<open>list.sort(key=..., reverse=...)\<close>. The sort is stable, also when \<open>reverse\<close> is set:
  the list is reversed, sorted and reversed again, so equal keys keep their order.
\<close>

definition py_sort :: "('a \<Rightarrow> 'k::linorder) \<Rightarrow> bool \<Rightarrow> 'a list \<Rightarrow> 'a list" where
  "py_sort key reverse xs =
     (if reverse then rev (sort_key key (rev xs)) else sort_key key xs)"

definition apply_filters :: "(string \<Rightarrow> string) \<Rightarrow> viewer \<Rightarrow> viewer" where
  "apply_filters lower s =
     (let filtered0 = all_models s;
          filtered1 = (if filter_name s \<noteq> [] then
                         filter (\<lambda>m. str_in (filter_name s) (lower (name m))) filtered0
                       else filtered0);
          filtered2 = (if filter_type s \<noteq> [] then
                         filter (\<lambda>m. str_in (filter_type s) (lower (type m))) filtered1
                       else filtered1);
          filtered3 = (if filter_subtype s \<noteq> [] then
                         filter (\<lambda>m. str_in (filter_subtype s) (lower (subtype m))) filtered2
                       else filtered2);
          filtered = py_sort (\<lambda>x. lower (field (sort_column s) x)) (sort_reverse s) filtered3
      in update_status (update_table (s\<lparr>filtered_models := filtered\<rparr>)))"

definition on_input_changed ::
  "(string \<Rightarrow> string) \<Rightarrow> string \<Rightarrow> string \<Rightarrow> viewer \<Rightarrow> viewer" where
  "on_input_changed lower input_id v s =
     apply_filters lower
       (if input_id = ''input_name'' then s\<lparr>filter_name := lower v\<rparr>
        else if input_id = ''input_type'' then s\<lparr>filter_type := lower v\<rparr>
        else if input_id = ''input_subtype'' then s\<lparr>filter_subtype := lower v\<rparr>
        else s)"

definition column_map :: "int \<Rightarrow> column option" where
  "column_map i =
     (if i = 0 then Some ColName
      else if i = 1 then Some ColType
      else if i = 2 then Some ColSubtype
      else None)"

definition on_data_table_header_selected ::
  "(string \<Rightarrow> string) \<Rightarrow> int \<Rightarrow> viewer \<Rightarrow> viewer" where
  "on_data_table_header_selected lower column_index s =
     (case column_map column_index of
        None \<Rightarrow> s
      | Some selected_column \<Rightarrow>
          (let s1 = (if sort_column s = selected_column then
                       s\<lparr>sort_reverse := \<not> sort_reverse s\<rparr>
                     else s\<lparr>sort_column := selected_column, sort_reverse := False\<rparr>);
               headers0 = [''Model'', ''Type'', ''Base Model''];
               sort_indicator =
                 (if \<not> sort_reverse s1 then '' '' @ down_triangle else '' '' @ up_triangle);
               headers = headers0[nat column_index := headers0 ! nat column_index @ sort_indicator];
               s2 = s1\<lparr>table_rows := [],
                       table_columns := [(headers ! 0, 120), (headers ! 1, 24), (headers ! 2, 16)]\<rparr>
           in apply_filters lower s2))"

definition action_reset_filters :: "(string \<Rightarrow> string) \<Rightarrow> viewer \<Rightarrow> viewer" where
  "action_reset_filters lower s =
     update_status_text ''Filters reset'' False
       (apply_filters lower
          (s\<lparr>input_name := [], input_type := [], input_subtype := [],
             filter_name := [], filter_type := [], filter_subtype := []\<rparr>))"

text \<open>The loop of \<open>action_generate_symlinks\<close>: one command for each path that is not blank.\<close>

fun symlink_commands :: "pure_path \<Rightarrow> model list \<Rightarrow> string list" where
  "symlink_commands dp [] = []"
| "symlink_commands dp (m # ms) =
     (let model_path = path m
      in if model_path \<noteq> [] \<and> strip model_path \<noteq> [] then
           (''ln -s '' @ [CHR 0x22]
            @ str_of_path (truediv (truediv dp ''models'') model_path)
            @ [CHR 0x22] @ '' .'')
           # symlink_commands dp ms
         else symlink_commands dp ms)"

text \<open>
  \<open>action_generate_symlinks\<close>. \<open>copy\<close> is \<open>pyperclip.copy\<close>: \<open>None\<close> when it returns, the
  message of its exception when it raises.
\<close>

definition action_generate_symlinks :: "(string \<Rightarrow> string option) \<Rightarrow> viewer \<Rightarrow> viewer" where
  "action_generate_symlinks copy s =
     (if filtered_models s = [] then
        update_status_text ''No models to generate symlinks for'' True s
      else
        (let symlinks = symlink_commands (data_path s) (filtered_models s)
         in if symlinks = [] then update_status_text ''No valid model paths found'' True s
            else
              (let symlink_text = join [CHR 0x0A] symlinks
               in case copy symlink_text of
                    None \<Rightarrow>
                      (let count = length symlinks
                       in update_status_text
                            (check_mark @ '' Copied '' @ str_of_nat count @ '' symlink command''
                             @ (if count > 1 then ''s'' else []) @ '' to clipboard!'')
                            False (s\<lparr>clipboard := Some symlink_text\<rparr>))
                  | Some e \<Rightarrow>
                      update_status_text (''Failed to copy to clipboard: '' @ e) True s)))"

text \<open>The events of a session, and the viewer after a sequence of them.\<close>

datatype event =
    InputChanged string string
  | HeaderSelected int
  | ResetFilters
  | GenerateSymlinks

fun handle ::
  "(string \<Rightarrow> string) \<Rightarrow> (string \<Rightarrow> string option) \<Rightarrow> event \<Rightarrow> viewer \<Rightarrow> viewer" where
  "handle lower copy (InputChanged input_id v) s = on_input_changed lower input_id v s"
| "handle lower copy (HeaderSelected i) s = on_data_table_header_selected lower i s"
| "handle lower copy ResetFilters s = action_reset_filters lower s"
| "handle lower copy GenerateSymlinks s = action_generate_symlinks copy s"

fun run ::
  "(string \<Rightarrow> string) \<Rightarrow> (string \<Rightarrow> string option) \<Rightarrow> event list \<Rightarrow> viewer \<Rightarrow> viewer" where
  "run lower copy [] s = s"
| "run lower copy (e # es) s = run lower copy es (handle lower copy e s)"

section \<open>Notions the properties are stated with\<close>

text \<open>
  The conjunction of the three substring tests, in the words of the specification: a
  model passes when each filter occurs in the lowered field it belongs to. It is compared
  below with what \<open>apply_filters\<close> computes.
\<close>

definition passes :: "(string \<Rightarrow> string) \<Rightarrow> viewer \<Rightarrow> model \<Rightarrow> bool" where
  "passes lower s m =
     (str_in (filter_name s) (lower (name m)) \<and>
      str_in (filter_type s) (lower (type m)) \<and>
      str_in (filter_subtype s) (lower (subtype m)))"

text \<open>The key \<open>apply_filters\<close> sorts by: the lowered field of the sort column.\<close>

definition sort_key_of :: "(string \<Rightarrow> string) \<Rightarrow> viewer \<Rightarrow> model \<Rightarrow> string" where
  "sort_key_of lower s x = lower (field (sort_column s) x)"

text \<open>
  A path is blank when it is empty or holds blank code points only: it is a
  concatenation of their encodings.
\<close>

definition blank :: "string \<Rightarrow> bool" where
  "blank p = (\<exists>ws. set ws \<subseteq> set space_seqs \<and> p = concat ws)"

text \<open>The command the loop of \<open>action_generate_symlinks\<close> appends for a path.\<close>

definition symlink_command :: "pure_path \<Rightarrow> string \<Rightarrow> string" where
  "symlink_command dp p =
     ''ln -s '' @ [CHR 0x22] @ str_of_path (truediv (truediv dp ''models'') p)
     @ [CHR 0x22] @ '' .''"

text \<open>
  A viewer with two models, for the data directory \<open>/data\<close>, on which the theorems below
  are instantiated.
\<close>

definition demo_viewer :: viewer where
  "demo_viewer =
     (init_viewer \<lparr>root = ''/'', parts = [''data'']\<rparr>
        \<lparr>root = ''/'', parts = [''data'', ''databases'', ''invokeai.db'']\<rparr>)
     \<lparr>all_models :=
        [\<lparr>name = ''foo.safetensors'', type = ''lora'', subtype = ''sdxl'', triggers = [],
          path = ''u1/foo.safetensors''\<rparr>,
         \<lparr>name = ''bar'', type = ''main'', subtype = ''sd1'', triggers = [], path = []\<rparr>]\<rparr>"


text \<open>
  A storage path in normal form: relative, with no empty component and no component
  \<open>''.''\<close>, so that parsing it changes nothing.
\<close>

definition relative_normal :: "string \<Rightarrow> bool" where
  "relative_normal p =
     (p \<noteq> [] \<and> hd p \<noteq> CHR ''/'' \<and> list_all is_part (split CHR ''/'' p))"



definition abc_models :: "model list" where
  "abc_models =
     [\<lparr>name = ''A'', type = ''lora'', subtype = ''sdxl'', triggers = [], path = ''x/a.pt''\<rparr>,
      \<lparr>name = ''B'', type = ''lora'', subtype = ''sdxl'', triggers = [], path = []\<rparr>,
      \<lparr>name = ''C'', type = ''lora'', subtype = ''sdxl'', triggers = [], path = ''y/c.pt''\<rparr>]"



text \<open>
  What \<open>str.lower\<close> computes on a string of ASCII characters: \<open>A\<close> to \<open>Z\<close> are lowered and
  every other character is kept. The examples, whose strings are ASCII, take it for the
  parameter \<open>lower\<close>.
\<close>

definition lower_char :: "char \<Rightarrow> char" where
  "lower_char c =
     (let n = (of_char c :: nat) in if 65 \<le> n \<and> n \<le> 90 then char_of (n + 32) else c)"

definition lower_ascii :: "string \<Rightarrow> string" where
  "lower_ascii s = map lower_char s"

section \<open>What recomputation leaves alone\<close>

lemma apply_filters_frame:
  "all_models (apply_filters lower s) = all_models s"
  "sort_column (apply_filters lower s) = sort_column s"
  "sort_reverse (apply_filters lower s) = sort_reverse s"
  "filter_name (apply_filters lower s) = filter_name s"
  "filter_type (apply_filters lower s) = filter_type s"
  "filter_subtype (apply_filters lower s) = filter_subtype s"
  "db_path (apply_filters lower s) = db_path s"
  "data_path (apply_filters lower s) = data_path s"
  by (simp_all add: apply_filters_def update_status_def update_table_def
      update_status_text_def Let_def)

section \<open>Header events\<close>

text \<open>
  Claim C10. A header event whose column index is none of 0, 1 and 2 leaves the whole
  viewer as it was: the sort column and direction, the three filters, the filtered models,
  and with them the table and the status line, which a recomputation would have written.
\<close>

theorem header_unknown_column_noop:
  "column_index < 0 \<or> 2 < column_index \<Longrightarrow>
   on_data_table_header_selected lower column_index s = s"
  by (auto simp: on_data_table_header_selected_def column_map_def)

theorem header_unknown_column_noop_witness:
  "((3::int) < 0 \<or> 2 < (3::int)) \<and>
   on_data_table_header_selected lower_ascii 3
     (init_viewer \<lparr>root = ''/'', parts = [''data'']\<rparr>
        \<lparr>root = ''/'', parts = [''data'', ''databases'', ''invokeai.db'']\<rparr>)
   = init_viewer \<lparr>root = ''/'', parts = [''data'']\<rparr>
       \<lparr>root = ''/'', parts = [''data'', ''databases'', ''invokeai.db'']\<rparr>"
  using header_unknown_column_noop
    [where column_index = 3 and lower = lower_ascii and s = "init_viewer \<lparr>root = ''/'', parts = [''data'']\<rparr>
             \<lparr>root = ''/'', parts = [''data'', ''databases'', ''invokeai.db'']\<rparr>"]
  by simp

section \<open>Reset\<close>

text \<open>
  Claim C9. After \<open>action_reset_filters\<close> the three filters are empty, the sort column and
  the sort direction are the ones before, the filtered models are all models in the
  current sort order, and a second reset changes nothing: the viewer after two resets is
  the viewer after one, in every field.
\<close>

theorem reset_filters_idempotent:
  "filter_name (action_reset_filters lower s) = [] \<and>
   filter_type (action_reset_filters lower s) = [] \<and>
   filter_subtype (action_reset_filters lower s) = [] \<and>
   sort_column (action_reset_filters lower s) = sort_column s \<and>
   sort_reverse (action_reset_filters lower s) = sort_reverse s \<and>
   filtered_models (action_reset_filters lower s) =
     py_sort (\<lambda>x. lower (field (sort_column s) x)) (sort_reverse s) (all_models s) \<and>
   action_reset_filters lower (action_reset_filters lower s) = action_reset_filters lower s"
  by (simp add: action_reset_filters_def apply_filters_def update_status_def
      update_table_def update_status_text_def Let_def)

section \<open>Filtering and sorting\<close>

lemma str_in_Nil [simp]: "str_in [] b"
  by (simp add: str_in_def)

lemma mset_py_sort [simp]: "mset (py_sort key r xs) = mset xs"
  by (simp add: py_sort_def)

lemma set_py_sort [simp]: "set (py_sort key r xs) = set xs"
  by (simp add: py_sort_def)

lemma py_sort_stable:
  "filter (\<lambda>y. key y = k) (py_sort key r xs) = filter (\<lambda>y. key y = k) xs"
proof (cases r)
  case True
  have "filter (\<lambda>y. key y = k) (rev (sort_key key (rev xs)))
        = rev (filter (\<lambda>y. key y = k) (sort_key key (rev xs)))"
    by (simp add: rev_filter)
  also have "\<dots> = rev (filter (\<lambda>y. key y = k) (rev xs))"
    by (simp only: sort_key_stable)
  also have "\<dots> = filter (\<lambda>y. key y = k) xs"
    by (simp add: rev_filter)
  finally show ?thesis using True by (simp add: py_sort_def)
next
  case False
  then show ?thesis by (simp add: py_sort_def sort_key_stable)
qed

lemma py_sort_ordered:
  "(if r then sorted (rev (map key (py_sort key r xs))) else sorted (map key (py_sort key r xs)))"
  by (simp add: py_sort_def rev_map)

lemma filtered_models_apply_filters:
  "filtered_models (apply_filters lower s) =
     py_sort (sort_key_of lower s) (sort_reverse s) (filter (passes lower s) (all_models s))"
proof -
  have eq: "(\<lambda>x. lower (field (sort_column s) x)) = sort_key_of lower s"
    by (simp add: sort_key_of_def fun_eq_iff)
  have f: "filter (passes lower s) (all_models s) =
    (let filtered0 = all_models s;
          filtered1 = (if filter_name s \<noteq> [] then
                         filter (\<lambda>m. str_in (filter_name s) (lower (name m))) filtered0
                       else filtered0);
          filtered2 = (if filter_type s \<noteq> [] then
                         filter (\<lambda>m. str_in (filter_type s) (lower (type m))) filtered1
                       else filtered1)
      in (if filter_subtype s \<noteq> [] then
                         filter (\<lambda>m. str_in (filter_subtype s) (lower (subtype m))) filtered2
                       else filtered2))"
    by (auto simp: passes_def Let_def intro: filter_cong)
  show ?thesis
    unfolding f
    by (simp add: apply_filters_def update_status_def update_table_def
        update_status_text_def Let_def eq)
qed

lemma on_input_changed_fields:
  "all_models (on_input_changed lower i v s) = all_models s"
  "sort_column (on_input_changed lower i v s) = sort_column s"
  "sort_reverse (on_input_changed lower i v s) = sort_reverse s"
  by (simp_all add: on_input_changed_def apply_filters_frame)

lemma on_input_changed_filters:
  "filter_name (on_input_changed lower ''input_name'' v s) = lower v"
  "filter_type (on_input_changed lower ''input_name'' v s) = filter_type s"
  "filter_subtype (on_input_changed lower ''input_name'' v s) = filter_subtype s"
  "filter_name (on_input_changed lower ''input_type'' v s) = filter_name s"
  "filter_type (on_input_changed lower ''input_type'' v s) = lower v"
  "filter_subtype (on_input_changed lower ''input_type'' v s) = filter_subtype s"
  "filter_name (on_input_changed lower ''input_subtype'' v s) = filter_name s"
  "filter_type (on_input_changed lower ''input_subtype'' v s) = filter_type s"
  "filter_subtype (on_input_changed lower ''input_subtype'' v s) = lower v"
  by (simp_all add: on_input_changed_def apply_filters_frame)

lemma filtered_models_on_input_changed:
  "filtered_models (on_input_changed lower i v s) =
     py_sort (sort_key_of lower s) (sort_reverse s)
       (filter (passes lower (on_input_changed lower i v s)) (all_models s))"
proof -
  let ?t = "(if i = ''input_name'' then s\<lparr>filter_name := lower v\<rparr>
        else if i = ''input_type'' then s\<lparr>filter_type := lower v\<rparr>
        else if i = ''input_subtype'' then s\<lparr>filter_subtype := lower v\<rparr>
        else s)"
  have a: "on_input_changed lower i v s = apply_filters lower ?t"
    by (simp add: on_input_changed_def)
  have b: "passes lower (apply_filters lower ?t) = passes lower ?t"
    by (simp add: passes_def fun_eq_iff apply_filters_frame)
  have c: "sort_key_of lower ?t = sort_key_of lower s" "sort_reverse ?t = sort_reverse s" "all_models ?t = all_models s"
    by (simp_all add: sort_key_of_def fun_eq_iff)
  show ?thesis
    unfolding a b filtered_models_apply_filters c ..
qed

text \<open>
  Claim C1. For any models and any three texts typed into the name, type and subtype
  inputs, the filtered models after the three input events are the models whose lowered
  name contains the lowered name text, whose lowered type contains the lowered type text
  and whose lowered subtype contains the lowered subtype text, all three at once, in
  the current sort order; a model is visible if and only if it is loaded and passes the
  three tests; and the empty text, which lowering leaves empty, is contained in every
  string. Lowering is what \<open>str.lower\<close> computes, whatever that is.
\<close>

theorem visible_iff_all_three_filters_match:
  "filtered_models
     (on_input_changed lower ''input_subtype'' fs
        (on_input_changed lower ''input_type'' ft
           (on_input_changed lower ''input_name'' fn s)))
   = py_sort (sort_key_of lower s) (sort_reverse s)
       (filter (\<lambda>m. str_in (lower fn) (lower (name m)) \<and>
                     str_in (lower ft) (lower (type m)) \<and>
                     str_in (lower fs) (lower (subtype m)))
          (all_models s))
   \<and> (m \<in> set (filtered_models
         (on_input_changed lower ''input_subtype'' fs
            (on_input_changed lower ''input_type'' ft
               (on_input_changed lower ''input_name'' fn s))))
      \<longleftrightarrow> (m \<in> set (all_models s) \<and>
           str_in (lower fn) (lower (name m)) \<and>
           str_in (lower ft) (lower (type m)) \<and>
           str_in (lower fs) (lower (subtype m))))
   \<and> (lower [] = [] \<longrightarrow> str_in (lower []) b)"
proof -
  let ?s1 = "on_input_changed lower ''input_name'' fn s"
  let ?s2 = "on_input_changed lower ''input_type'' ft ?s1"
  let ?s3 = "on_input_changed lower ''input_subtype'' fs ?s2"
  have p: "passes lower ?s3 = (\<lambda>m. str_in (lower fn) (lower (name m)) \<and>
                     str_in (lower ft) (lower (type m)) \<and>
                     str_in (lower fs) (lower (subtype m)))"
    by (simp add: passes_def fun_eq_iff on_input_changed_filters)
  have k: "sort_key_of lower ?s2 = sort_key_of lower s" "sort_reverse ?s2 = sort_reverse s"
    "all_models ?s2 = all_models s"
    by (simp_all add: sort_key_of_def fun_eq_iff on_input_changed_fields)
  have l: "filtered_models ?s3 = py_sort (sort_key_of lower s) (sort_reverse s)
       (filter (passes lower ?s3) (all_models s))"
    using filtered_models_on_input_changed [of lower "''input_subtype''" fs ?s2]
    by (simp only: k)
  show ?thesis
    unfolding l p by simp
qed

lemma demo_type_filter:
  "py_sort (sort_key_of lower_ascii demo_viewer) (sort_reverse demo_viewer)
     (filter (\<lambda>m. str_in (lower_ascii []) (lower_ascii (name m)) \<and>
                   str_in (lower_ascii ''LoRA'') (lower_ascii (type m)) \<and>
                   str_in (lower_ascii []) (lower_ascii (subtype m)))
        (all_models demo_viewer))
   = [\<lparr>name = ''foo.safetensors'', type = ''lora'', subtype = ''sdxl'', triggers = [],
       path = ''u1/foo.safetensors''\<rparr>]"
  by code_simp

theorem visible_iff_all_three_filters_match_witness:
  "lower_ascii [] = []
   \<and> str_in (lower_ascii []) ''bar''
   \<and> filtered_models
       (on_input_changed lower_ascii ''input_subtype'' []
          (on_input_changed lower_ascii ''input_type'' ''LoRA''
             (on_input_changed lower_ascii ''input_name'' [] demo_viewer)))
     = [\<lparr>name = ''foo.safetensors'', type = ''lora'', subtype = ''sdxl'', triggers = [],
         path = ''u1/foo.safetensors''\<rparr>]"
proof -
  have h: "lower_ascii [] = []"
    by (simp add: lower_ascii_def)
  note t = visible_iff_all_three_filters_match
    [where lower = lower_ascii and fn = "[]" and ft = "''LoRA''" and fs = "[]"
      and s = demo_viewer and b = "''bar''"]
  from t h have e: "str_in (lower_ascii []) ''bar''"
    by blast
  from t have f: "filtered_models
       (on_input_changed lower_ascii ''input_subtype'' []
          (on_input_changed lower_ascii ''input_type'' ''LoRA''
             (on_input_changed lower_ascii ''input_name'' [] demo_viewer)))
     = py_sort (sort_key_of lower_ascii demo_viewer) (sort_reverse demo_viewer)
         (filter (\<lambda>m. str_in (lower_ascii []) (lower_ascii (name m)) \<and>
                       str_in (lower_ascii ''LoRA'') (lower_ascii (type m)) \<and>
                       str_in (lower_ascii []) (lower_ascii (subtype m)))
            (all_models demo_viewer))"
    by blast
  from h e f show ?thesis
    unfolding demo_type_filter by blast
qed

text \<open>
  Claim C3. \<open>apply_filters\<close> orders the models that pass the filters by the lowered
  field of the sort column: the result is a permutation of them, its keys ascend when
  \<open>sort_reverse\<close> is not set and descend when it is, and in both directions the models
  with one and the same key stand in the order they had before the sort. The field is
  lowered by \<open>str.lower\<close>, whatever that computes.
\<close>

theorem recompute_is_stable_sort:
  "mset (filtered_models (apply_filters lower s)) = mset (filter (passes lower s) (all_models s))
   \<and> (if sort_reverse s
      then sorted (rev (map (sort_key_of lower s) (filtered_models (apply_filters lower s))))
      else sorted (map (sort_key_of lower s) (filtered_models (apply_filters lower s))))
   \<and> filter (\<lambda>m. sort_key_of lower s m = k) (filtered_models (apply_filters lower s))
     = filter (\<lambda>m. sort_key_of lower s m = k) (filter (passes lower s) (all_models s))"
  unfolding filtered_models_apply_filters
  using py_sort_ordered [of "sort_reverse s" "sort_key_of lower s" "filter (passes lower s) (all_models s)"]
  by (simp add: py_sort_stable)

lemma filtered_apply_filters_subset:
  "mset (filtered_models (apply_filters lower s)) \<subseteq># mset (all_models s)"
  by (simp add: filtered_models_apply_filters)

lemma update_status_text_fields:
  "all_models (update_status_text t e s) = all_models s"
  "filtered_models (update_status_text t e s) = filtered_models s"
  "sort_column (update_status_text t e s) = sort_column s"
  "sort_reverse (update_status_text t e s) = sort_reverse s"
  "clipboard (update_status_text t e s) = clipboard s"
  "status_text (update_status_text t e s) = t"
  by (simp_all add: update_status_text_def)

lemma handle_all_models: "all_models (handle lower copy e s) = all_models s"
proof (cases e)
  case (InputChanged i v)
  then show ?thesis by (simp add: on_input_changed_fields)
next
  case (HeaderSelected i)
  then show ?thesis
    by (simp add: on_data_table_header_selected_def apply_filters_frame Let_def
        split: option.splits)
next
  case ResetFilters
  then show ?thesis
    by (simp add: action_reset_filters_def update_status_text_fields apply_filters_frame)
next
  case GenerateSymlinks
  then show ?thesis
    by (simp add: action_generate_symlinks_def update_status_text_fields Let_def
        split: option.splits)
qed

lemma handle_filtered_subset:
  assumes "mset (filtered_models s) \<subseteq># mset (all_models s)"
  shows "mset (filtered_models (handle lower copy e s)) \<subseteq># mset (all_models s)"
proof (cases e)
  case (InputChanged i v)
  have "mset (filtered_models (on_input_changed lower i v s)) \<subseteq># mset (all_models s)"
    unfolding filtered_models_on_input_changed by simp
  with InputChanged show ?thesis by simp
next
  case (HeaderSelected i)
  show ?thesis
  proof (cases "column_map i")
    case None
    with HeaderSelected assms show ?thesis
      by (simp add: on_data_table_header_selected_def)
  next
    case (Some c)
    obtain t where t: "on_data_table_header_selected lower i s = apply_filters lower t"
      "all_models t = all_models s"
      using Some by (simp add: on_data_table_header_selected_def Let_def)
    show ?thesis
      using HeaderSelected filtered_apply_filters_subset [of lower t] by (simp add: t)
  qed
next
  case ResetFilters
  obtain t where t: "action_reset_filters lower s = update_status_text ''Filters reset'' False (apply_filters lower t)"
      "all_models t = all_models s"
    by (simp add: action_reset_filters_def)
  show ?thesis
    using ResetFilters filtered_apply_filters_subset [of lower t]
    by (simp add: t update_status_text_fields)
next
  case GenerateSymlinks
  have "filtered_models (action_generate_symlinks copy s) = filtered_models s"
    by (simp add: action_generate_symlinks_def update_status_text_fields Let_def
        split: option.splits)
  with GenerateSymlinks assms show ?thesis by simp
qed

lemma run_invariant:
  "mset (filtered_models s) \<subseteq># mset (all_models s) \<Longrightarrow>
   mset (filtered_models (run lower copy es s)) \<subseteq># mset (all_models s) \<and>
   all_models (run lower copy es s) = all_models s"
proof (induction es arbitrary: s)
  case Nil
  then show ?case by simp
next
  case (Cons e es)
  have "mset (filtered_models (handle lower copy e s)) \<subseteq># mset (all_models (handle lower copy e s))"
    using handle_filtered_subset [OF Cons.prems] by (simp add: handle_all_models)
  from Cons.IH [OF this] show ?case by (simp add: handle_all_models)
qed

lemma on_mount_models:
  "all_models (on_mount (Inr models) s) = models"
  "filtered_models (on_mount (Inr models) s) = models"
  "all_models (on_mount (Inl e) s) = all_models s"
  "filtered_models (on_mount (Inl e) s) = filtered_models s"
  by (simp_all add: on_mount_def update_status_def update_table_def update_status_text_def Let_def)

text \<open>
  Claim C8. After the models are loaded, and after any sequence of input, header, reset
  and generate events, the filtered models are a sub-multiset of the loaded models (no
  model occurs more often than it was loaded, and each is a loaded one), and
  \<open>all_models\<close> is still the list that was loaded.
\<close>

theorem visible_submultiset_of_all:
  "mset (filtered_models (run lower copy es (on_mount (Inr models) (init_viewer dp db)))) \<subseteq># mset models
   \<and> set (filtered_models (run lower copy es (on_mount (Inr models) (init_viewer dp db)))) \<subseteq> set models
   \<and> all_models (run lower copy es (on_mount (Inr models) (init_viewer dp db))) = models"
proof -
  let ?s = "on_mount (Inr models) (init_viewer dp db)"
  have "mset (filtered_models ?s) \<subseteq># mset (all_models ?s)"
    by (simp add: on_mount_models)
  from run_invariant [OF this, of lower copy es]
  have a: "mset (filtered_models (run lower copy es ?s)) \<subseteq># mset models"
    and b: "all_models (run lower copy es ?s) = models"
    by (simp_all add: on_mount_models)
  from a have "set (filtered_models (run lower copy es ?s)) \<subseteq> set models"
    using set_mset_mono by fastforce
  with a b show ?thesis by simp
qed

section \<open>Symlink generation: nothing to emit\<close>

lemma space_seq_not_Nil: "w \<in> set space_seqs \<Longrightarrow> w \<noteq> []"
  by (auto simp: space_seqs_def)

lemma space_seqs_prefix_free_all:
  "list_all (\<lambda>a. list_all (\<lambda>b. \<not> prefix a b \<or> a = b) space_seqs) space_seqs"
  by code_simp

lemma space_seqs_prefix_free:
  "a \<in> set space_seqs \<Longrightarrow> b \<in> set space_seqs \<Longrightarrow> prefix a b \<Longrightarrow> a = b"
  using space_seqs_prefix_free_all unfolding list_all_iff by blast

lemma lstrip_Nil [simp]: "lstrip [] = []"
proof -
  have "find (\<lambda>w. prefix w []) space_seqs = None"
    by (auto simp: find_None_iff dest: space_seq_not_Nil)
  then show ?thesis by (simp add: lstrip.simps)
qed

lemma rstrip_Nil [simp]: "rstrip [] = []"
proof -
  have "find (\<lambda>w. suffix w []) space_seqs = None"
    by (auto simp: find_None_iff dest: space_seq_not_Nil)
  then show ?thesis by (simp add: rstrip.simps)
qed

lemma lstrip_no_space: "find (\<lambda>w. prefix w (lstrip s)) space_seqs = None"
proof (induction s rule: lstrip.induct)
  case (1 s)
  show ?case
  proof (cases "find (\<lambda>w. prefix w s) space_seqs")
    case None
    then have "lstrip s = s" by (simp add: lstrip.simps)
    with None show ?thesis by simp
  next
    case (Some w)
    then have "lstrip s = lstrip (drop (length w) s)" by (simp add: lstrip.simps)
    with "1.IH" [OF Some] show ?thesis by simp
  qed
qed

lemma lstrip_Nil_blank: "lstrip s = [] \<Longrightarrow> blank s"
proof (induction s rule: lstrip.induct)
  case (1 s)
  show ?case
  proof (cases "find (\<lambda>w. prefix w s) space_seqs")
    case None
    with "1.prems" have "s = []" by (simp add: lstrip.simps)
    then show ?thesis unfolding blank_def by (intro exI [of _ "[]"]) simp
  next
    case (Some w)
    then have w: "w \<in> set space_seqs" and p: "prefix w s"
      by (auto simp: find_Some_iff)
    from Some "1.prems" have "lstrip (drop (length w) s) = []" by (simp add: lstrip.simps)
    from "1.IH" [OF Some this] obtain ws where
      ws: "set ws \<subseteq> set space_seqs" "drop (length w) s = concat ws"
      unfolding blank_def by blast
    from p have "s = w @ drop (length w) s" by (auto simp: prefix_def)
    with ws have "s = concat (w # ws)" by simp
    moreover have "set (w # ws) \<subseteq> set space_seqs" using w ws by simp
    ultimately show ?thesis unfolding blank_def by blast
  qed
qed

lemma rstrip_Nil_blank: "rstrip s = [] \<Longrightarrow> blank s"
proof (induction s rule: rstrip.induct)
  case (1 s)
  show ?case
  proof (cases "find (\<lambda>w. suffix w s) space_seqs")
    case None
    with "1.prems" have "s = []" by (simp add: rstrip.simps)
    then show ?thesis unfolding blank_def by (intro exI [of _ "[]"]) simp
  next
    case (Some w)
    then have w: "w \<in> set space_seqs" and p: "suffix w s"
      by (auto simp: find_Some_iff)
    from Some "1.prems" have "rstrip (take (length s - length w) s) = []"
      by (simp add: rstrip.simps)
    from "1.IH" [OF Some this] obtain ws where
      ws: "set ws \<subseteq> set space_seqs" "take (length s - length w) s = concat ws"
      unfolding blank_def by blast
    from p have "s = take (length s - length w) s @ w" by (auto simp: suffix_def)
    with ws have "s = concat (ws @ [w])" by simp
    moreover have "set (ws @ [w]) \<subseteq> set space_seqs" using w ws by simp
    ultimately show ?thesis unfolding blank_def by blast
  qed
qed

lemma concat_spaces_lstrip:
  "set ws \<subseteq> set space_seqs \<Longrightarrow> lstrip (concat ws) = []"
proof (induction ws)
  case Nil
  then show ?case by simp
next
  case (Cons w ws)
  then have w: "w \<in> set space_seqs" by simp
  have "prefix w (concat (w # ws))" by simp
  with w obtain v where v: "find (\<lambda>u. prefix u (concat (w # ws))) space_seqs = Some v"
    by (cases "find (\<lambda>u. prefix u (concat (w # ws))) space_seqs")
      (auto simp: find_None_iff)
  then have vs: "v \<in> set space_seqs" and vp: "prefix v (w @ concat ws)"
    by (auto simp: find_Some_iff)
  have "prefix v w \<or> prefix w v"
    using vp by (meson prefix_same_cases prefixI)
  then have "v = w"
    using space_seqs_prefix_free [OF vs w] space_seqs_prefix_free [OF w vs] by blast
  with v have f: "find (\<lambda>u. prefix u (w @ concat ws)) space_seqs = Some w"
    by simp
  have "lstrip (w @ concat ws) = lstrip (drop (length w) (w @ concat ws))"
    by (subst lstrip.simps) (simp only: f option.case)
  then have "lstrip (concat (w # ws)) = lstrip (concat ws)"
    by simp
  with Cons show ?case by simp
qed

lemma blank_not_Nil_has_space:
  assumes "blank q" and "q \<noteq> []"
  shows "find (\<lambda>w. prefix w q) space_seqs \<noteq> None"
proof -
  from assms obtain ws where ws: "set ws \<subseteq> set space_seqs" "q = concat ws"
    unfolding blank_def by blast
  from ws assms(2) obtain w0 rest where c: "ws = w0 # rest" by (cases ws) auto
  with ws have "w0 \<in> set space_seqs" "prefix w0 q" by simp_all
  then show ?thesis by (auto simp: find_None_iff)
qed

lemma strip_Nil_iff: "strip p = [] \<longleftrightarrow> blank p"
proof
  assume s: "strip p = []"
  then have "blank (lstrip p)" unfolding strip_def by (rule rstrip_Nil_blank)
  have "lstrip p = []"
  proof (rule ccontr)
    assume "lstrip p \<noteq> []"
    with \<open>blank (lstrip p)\<close> have "find (\<lambda>w. prefix w (lstrip p)) space_seqs \<noteq> None"
      by (rule blank_not_Nil_has_space)
    with lstrip_no_space [of p] show False by simp
  qed
  then show "blank p" by (rule lstrip_Nil_blank)
next
  assume "blank p"
  then have "lstrip p = []" unfolding blank_def using concat_spaces_lstrip by blast
  then show "strip p = []" by (simp add: strip_def)
qed

lemma not_blank_iff: "(p \<noteq> [] \<and> strip p \<noteq> []) \<longleftrightarrow> \<not> blank p"
proof -
  have "blank []" unfolding blank_def by (intro exI [of _ "[]"]) simp
  then show ?thesis by (auto simp: strip_Nil_iff)
qed

lemma strip_examples:
  "strip '' '' = []" "strip [CHR 0xC2, CHR 0xA0] = []"
  "strip '' x/a.pt  '' = ''x/a.pt''" "strip ''x/a.pt'' = ''x/a.pt''"
  by code_simp+

lemma symlink_commands_map_filter:
  "symlink_commands dp ms =
     map (\<lambda>m. symlink_command dp (path m)) (filter (\<lambda>m. \<not> blank (path m)) ms)"
  by (induction ms) (simp_all add: Let_def not_blank_iff symlink_command_def)

lemma symlink_commands_Nil_iff:
  "symlink_commands dp ms = [] \<longleftrightarrow> (\<forall>m \<in> set ms. blank (path m))"
  by (simp add: symlink_commands_map_filter filter_empty_conv)

text \<open>
  Claim C5. \<open>action_generate_symlinks\<close> reports "No models to generate symlinks for"
  exactly when there are no filtered models, and "No valid model paths found" exactly when
  there are filtered models and the path of each is blank: empty, or made of the code
  points that \<open>str.strip\<close> removes, those beyond ASCII among them. When every path is
  blank (which covers both cases) the clipboard is left as it was, the status is an
  error, and the result does not depend on the clipboard function: it is not called.
\<close>

theorem symlink_failure_signals:
  "(status_text (action_generate_symlinks copy s) = ''No models to generate symlinks for''
      \<longleftrightarrow> filtered_models s = [])
   \<and> (status_text (action_generate_symlinks copy s) = ''No valid model paths found''
      \<longleftrightarrow> filtered_models s \<noteq> [] \<and> (\<forall>m \<in> set (filtered_models s). blank (path m)))
   \<and> ((\<forall>m \<in> set (filtered_models s). blank (path m)) \<longrightarrow>
        clipboard (action_generate_symlinks copy s) = clipboard s \<and>
        status_color (action_generate_symlinks copy s) = ''red'' \<and>
        action_generate_symlinks copy s = action_generate_symlinks (\<lambda>t. None) s)"
proof -
  let ?cmds = "symlink_commands (data_path s) (filtered_models s)"
  show ?thesis
  proof (cases "filtered_models s = []")
    case True
    then show ?thesis
      by (simp add: action_generate_symlinks_def update_status_text_def)
  next
    case ne: False
    show ?thesis
    proof (cases "?cmds = []")
      case True
      then have all: "\<forall>m \<in> set (filtered_models s). blank (path m)"
        by (simp add: symlink_commands_Nil_iff)
      show ?thesis using ne True all
        by (simp add: action_generate_symlinks_def update_status_text_def)
    next
      case False
      then have nall: "\<not> (\<forall>m \<in> set (filtered_models s). blank (path m))"
        by (simp add: symlink_commands_Nil_iff)
      have "status_text (action_generate_symlinks copy s) \<noteq> ''No models to generate symlinks for''"
        "status_text (action_generate_symlinks copy s) \<noteq> ''No valid model paths found''"
        using ne False
        by (simp_all add: action_generate_symlinks_def update_status_text_def Let_def
            check_mark_def split: option.splits)
      with ne nall show ?thesis by blast
    qed
  qed
qed

section \<open>The sort toggle\<close>

lemma header_selected_effect:
  assumes "column_map i = Some c"
  shows "sort_column (on_data_table_header_selected lower i s) = c"
    and "sort_reverse (on_data_table_header_selected lower i s)
         = (if sort_column s = c then \<not> sort_reverse s else False)"
    and "passes lower (on_data_table_header_selected lower i s) = passes lower s"
    and "all_models (on_data_table_header_selected lower i s) = all_models s"
    and "filtered_models (on_data_table_header_selected lower i s)
         = py_sort (\<lambda>x. lower (field c x))
             (if sort_column s = c then \<not> sort_reverse s else False)
             (filter (passes lower s) (all_models s))"
proof -
  obtain t where t: "on_data_table_header_selected lower i s = apply_filters lower t"
    and f: "sort_column t = c"
      "sort_reverse t = (if sort_column s = c then \<not> sort_reverse s else False)"
      "all_models t = all_models s" "filter_name t = filter_name s"
      "filter_type t = filter_type s" "filter_subtype t = filter_subtype s"
    using assms by (simp add: on_data_table_header_selected_def Let_def)
  have p: "passes lower t = passes lower s"
    by (simp add: passes_def fun_eq_iff f)
  have k: "sort_key_of lower t = (\<lambda>x. lower (field c x))"
    by (simp add: sort_key_of_def fun_eq_iff f)
  show "sort_column (on_data_table_header_selected lower i s) = c"
    by (simp add: t apply_filters_frame f)
  show "sort_reverse (on_data_table_header_selected lower i s)
         = (if sort_column s = c then \<not> sort_reverse s else False)"
    by (simp add: t apply_filters_frame f)
  show "passes lower (on_data_table_header_selected lower i s) = passes lower s"
    by (simp add: t passes_def fun_eq_iff apply_filters_frame f)
  show "all_models (on_data_table_header_selected lower i s) = all_models s"
    by (simp add: t apply_filters_frame f)
  show "filtered_models (on_data_table_header_selected lower i s)
         = py_sort (\<lambda>x. lower (field c x))
             (if sort_column s = c then \<not> sort_reverse s else False)
             (filter (passes lower s) (all_models s))"
    unfolding t filtered_models_apply_filters p k f ..
qed

lemma column_map_1: "column_map 1 = Some ColType"
  by (simp add: column_map_def)

text \<open>
  Claim C2. A header event for one of the three columns makes it the sort column; the
  direction flips when it was the sort column already and is ascending otherwise. From
  the default state (sorted by name, ascending) two events on the type column leave the
  models that pass the filters in descending order of their lowered type, and a third
  event leaves them in ascending order.
\<close>

theorem sort_column_toggle:
  "(column_map i = Some c \<longrightarrow>
      sort_column (on_data_table_header_selected lower i s) = c \<and>
      sort_reverse (on_data_table_header_selected lower i s)
        = (if sort_column s = c then \<not> sort_reverse s else False))
   \<and> (sort_column s = ColName \<and> \<not> sort_reverse s \<longrightarrow>
      (let s2 = on_data_table_header_selected lower 1 (on_data_table_header_selected lower 1 s);
           s3 = on_data_table_header_selected lower 1 s2
       in sort_column s2 = ColType \<and> sort_reverse s2 \<and>
          filtered_models s2
            = py_sort (\<lambda>x. lower (type x)) True (filter (passes lower s) (all_models s)) \<and>
          sorted (rev (map (\<lambda>x. lower (type x)) (filtered_models s2))) \<and>
          sort_column s3 = ColType \<and> \<not> sort_reverse s3 \<and>
          filtered_models s3
            = py_sort (\<lambda>x. lower (type x)) False (filter (passes lower s) (all_models s)) \<and>
          sorted (map (\<lambda>x. lower (type x)) (filtered_models s3))))"
proof (intro conjI impI)
  assume "column_map i = Some c"
  then show "sort_column (on_data_table_header_selected lower i s) = c"
    and "sort_reverse (on_data_table_header_selected lower i s)
        = (if sort_column s = c then \<not> sort_reverse s else False)"
    by (simp_all add: header_selected_effect)
next
  assume d: "sort_column s = ColName \<and> \<not> sort_reverse s"
  let ?s1 = "on_data_table_header_selected lower 1 s"
  let ?s2 = "on_data_table_header_selected lower 1 ?s1"
  let ?s3 = "on_data_table_header_selected lower 1 ?s2"
  note h = header_selected_effect [OF column_map_1]
  have s1: "sort_column ?s1 = ColType" "\<not> sort_reverse ?s1"
    "passes lower ?s1 = passes lower s" "all_models ?s1 = all_models s"
    using d by (simp_all add: h)
  have s2: "sort_column ?s2 = ColType" "sort_reverse ?s2"
    "passes lower ?s2 = passes lower s" "all_models ?s2 = all_models s"
    using s1 by (simp_all add: h)
  have f2: "filtered_models ?s2
      = py_sort (\<lambda>x. lower (type x)) True (filter (passes lower s) (all_models s))"
    using s1 by (simp add: h)
  have s3: "sort_column ?s3 = ColType" "\<not> sort_reverse ?s3"
    using s2 by (simp_all add: h)
  have f3: "filtered_models ?s3
      = py_sort (\<lambda>x. lower (type x)) False (filter (passes lower s) (all_models s))"
    using s2 by (simp add: h)
  have o2: "sorted (rev (map (\<lambda>x. lower (type x)) (filtered_models ?s2)))"
    unfolding f2
    using py_sort_ordered [of True "\<lambda>x. lower (type x)" "filter (passes lower s) (all_models s)"]
    by simp
  have o3: "sorted (map (\<lambda>x. lower (type x)) (filtered_models ?s3))"
    unfolding f3
    using py_sort_ordered [of False "\<lambda>x. lower (type x)" "filter (passes lower s) (all_models s)"]
    by simp
  show "let s2 = on_data_table_header_selected lower 1 (on_data_table_header_selected lower 1 s);
           s3 = on_data_table_header_selected lower 1 s2
       in sort_column s2 = ColType \<and> sort_reverse s2 \<and>
          filtered_models s2
            = py_sort (\<lambda>x. lower (type x)) True (filter (passes lower s) (all_models s)) \<and>
          sorted (rev (map (\<lambda>x. lower (type x)) (filtered_models s2))) \<and>
          sort_column s3 = ColType \<and> \<not> sort_reverse s3 \<and>
          filtered_models s3
            = py_sort (\<lambda>x. lower (type x)) False (filter (passes lower s) (all_models s)) \<and>
          sorted (map (\<lambda>x. lower (type x)) (filtered_models s3))"
    unfolding Let_def using s2(1,2) f2 o2 s3 f3 o3 by blast
qed

theorem sort_column_toggle_witness:
  "column_map 1 = Some ColType \<and> sort_column demo_viewer = ColName \<and>
   \<not> sort_reverse demo_viewer \<and>
   sort_column (on_data_table_header_selected lower_ascii 1 demo_viewer) = ColType \<and>
   sort_reverse (on_data_table_header_selected lower_ascii 1 (on_data_table_header_selected lower_ascii 1 demo_viewer)) \<and>
   sorted (rev (map (\<lambda>x. lower_ascii (type x))
     (filtered_models
        (on_data_table_header_selected lower_ascii 1 (on_data_table_header_selected lower_ascii 1 demo_viewer)))))"
proof -
  have a: "column_map 1 = Some ColType" by (simp add: column_map_def)
  have b: "sort_column demo_viewer = ColName \<and> \<not> sort_reverse demo_viewer"
    by (simp add: demo_viewer_def init_viewer_def)
  from sort_column_toggle
    [where i = 1 and c = ColType and s = demo_viewer and lower = lower_ascii,
      unfolded Let_def] a b
  show ?thesis by blast
qed

theorem symlink_failure_signals_witness:
  "filtered_models
     (demo_viewer\<lparr>filtered_models :=
        [\<lparr>name = ''bar'', type = ''main'', subtype = ''sd1'', triggers = [],
          path = [CHR 0xC2, CHR 0xA0]\<rparr>]\<rparr>)
   \<noteq> []
   \<and> status_text (action_generate_symlinks (\<lambda>t. None)
        (demo_viewer\<lparr>filtered_models :=
           [\<lparr>name = ''bar'', type = ''main'', subtype = ''sd1'', triggers = [],
             path = [CHR 0xC2, CHR 0xA0]\<rparr>]\<rparr>))
      = ''No valid model paths found''
   \<and> clipboard (action_generate_symlinks (\<lambda>t. None)
        (demo_viewer\<lparr>filtered_models :=
           [\<lparr>name = ''bar'', type = ''main'', subtype = ''sd1'', triggers = [],
             path = [CHR 0xC2, CHR 0xA0]\<rparr>]\<rparr>))
      = None"
proof -
  let ?s = "demo_viewer\<lparr>filtered_models :=
        [\<lparr>name = ''bar'', type = ''main'', subtype = ''sd1'', triggers = [],
          path = [CHR 0xC2, CHR 0xA0]\<rparr>]\<rparr>"
  have b: "blank [CHR 0xC2, CHR 0xA0]"
    using strip_examples(2) by (simp only: strip_Nil_iff)
  have h: "\<forall>m \<in> set (filtered_models ?s). blank (path m)"
    using b by simp
  have c: "clipboard ?s = None"
    by (simp add: demo_viewer_def init_viewer_def)
  from symlink_failure_signals [of "\<lambda>t. None" ?s] h c
  show ?thesis by simp
qed

section \<open>The display name\<close>












section \<open>Symlink generation: the commands\<close>

lemma split_not_Nil [simp]: "split sep s \<noteq> []"
  by (induction s) (auto split: list.splits)

lemma join_Cons_Cons: "join sep ((c # w) # ws) = c # join sep (w # ws)"
  by (cases ws) simp_all

lemma join_Nil_Cons: "ws \<noteq> [] \<Longrightarrow> join sep ([] # ws) = sep @ join sep ws"
  by (cases ws) simp_all

lemma join_split: "join [sep] (split sep s) = s"
proof (induction s)
  case Nil
  then show ?case by simp
next
  case (Cons c cs)
  show ?case
  proof (cases "c = sep")
    case True
    then show ?thesis using Cons.IH by (simp add: join_Nil_Cons)
  next
    case False
    obtain w ws where w: "split sep cs = w # ws"
      by (cases "split sep cs") simp_all
    with False Cons.IH show ?thesis by (simp add: join_Cons_Cons)
  qed
qed

lemma join_Cons: "ys \<noteq> [] \<Longrightarrow> join sep (x # ys) = x @ sep @ join sep ys"
  by (cases ys) simp_all

lemma join_append:
  "xs \<noteq> [] \<Longrightarrow> ys \<noteq> [] \<Longrightarrow> join sep (xs @ ys) = join sep xs @ sep @ join sep ys"
proof (induction sep xs rule: join.induct)
  case (1 sep)
  then show ?case by simp
next
  case (2 sep x)
  then show ?case by (cases ys) simp_all
next
  case (3 sep x y ys')
  then show ?case by simp
qed

lemma parse_path_models: "parse_path ''models'' = \<lparr>root = [], parts = [''models'']\<rparr>"
  by (simp add: parse_path_def is_part_def)

lemma parse_path_relative_normal:
  assumes "relative_normal p"
  shows "parse_path p = \<lparr>root = [], parts = split CHR ''/'' p\<rparr>"
proof -
  from assms obtain c cs where p: "p = c # cs" and c: "c \<noteq> CHR ''/''"
    by (cases p) (auto simp: relative_normal_def)
  from assms have "filter is_part (split CHR ''/'' p) = split CHR ''/'' p"
    by (simp add: relative_normal_def list_all_iff)
  then show ?thesis using c unfolding p by (simp add: parse_path_def)
qed

lemma truediv_models_relative:
  assumes "relative_normal p"
  shows "truediv (truediv dp ''models'') p
         = \<lparr>root = root dp, parts = parts dp @ [''models''] @ split CHR ''/'' p\<rparr>"
  by (simp add: truediv_def parse_path_models parse_path_relative_normal [OF assms])

lemma str_of_path_join:
  assumes "relative_normal p" and "parts dp \<noteq> []" and "root dp @ join ''/'' (parts dp) \<noteq> []"
  shows "str_of_path (truediv (truediv dp ''models'') p)
         = str_of_path dp @ ''/models/'' @ p"
proof -
  have "join ''/'' (parts dp @ [''models''] @ split CHR ''/'' p)
        = join ''/'' (parts dp) @ ''/'' @ join ''/'' ([''models''] @ split CHR ''/'' p)"
    using assms(2) by (intro join_append) simp_all
  also have "join ''/'' ([''models''] @ split CHR ''/'' p)
        = ''models'' @ ''/'' @ join ''/'' (split CHR ''/'' p)"
    by (simp add: join_Cons)
  also have "join ''/'' (split CHR ''/'' p) = p"
    by (rule join_split)
  finally have j: "join ''/'' (parts dp @ ''models'' # split CHR ''/'' p)
        = join ''/'' (parts dp) @ ''/models/'' @ p"
    by simp
  have t: "truediv (truediv dp ''models'') p
         = \<lparr>root = root dp, parts = parts dp @ ''models'' # split CHR ''/'' p\<rparr>"
    by (simp add: truediv_models_relative [OF assms(1)])
  have s1: "str_of_path dp = root dp @ join ''/'' (parts dp)"
    using assms(3) by (simp add: str_of_path_def Let_def)
  have "str_of_path \<lparr>root = root dp, parts = parts dp @ ''models'' # split CHR ''/'' p\<rparr>
        = root dp @ join ''/'' (parts dp) @ ''/models/'' @ p"
    by (simp add: str_of_path_def Let_def j)
  then show ?thesis
    unfolding t s1 by simp
qed

lemma parts_parse_path_is_part: "x \<in> set (parts (parse_path raw)) \<Longrightarrow> x \<noteq> []"
  by (auto simp: parse_path_def is_part_def Let_def split: list.splits if_splits)

lemma join_nonempty: "xs \<noteq> [] \<Longrightarrow> \<forall>x \<in> set xs. x \<noteq> [] \<Longrightarrow> join sep xs \<noteq> []"
proof (cases xs)
  case Nil
  then show "xs \<noteq> [] \<Longrightarrow> ?thesis" by simp
next
  case (Cons x ys)
  assume "\<forall>x \<in> set xs. x \<noteq> []"
  with Cons have "x \<noteq> []" by simp
  then show ?thesis unfolding Cons by (cases ys) simp_all
qed

lemma str_of_parsed_nonempty:
  "parts (parse_path raw) \<noteq> [] \<Longrightarrow>
   root (parse_path raw) @ join ''/'' (parts (parse_path raw)) \<noteq> []"
  using join_nonempty [of "parts (parse_path raw)" "''/''"] parts_parse_path_is_part [of _ raw]
  by blast

lemma data_path_parsed: "parse_path ''/data'' = \<lparr>root = ''/'', parts = [''data'']\<rparr>"
  by (simp add: parse_path_def is_part_def)

lemma abc_commands:
  "symlink_commands (parse_path ''/data'') abc_models
   = [''ln -s '' @ [CHR 0x22] @ ''/data/models/x/a.pt'' @ [CHR 0x22] @ '' .'',
      ''ln -s '' @ [CHR 0x22] @ ''/data/models/y/c.pt'' @ [CHR 0x22] @ '' .'']"
  by code_simp

lemma truediv_absolute:
  assumes "p \<noteq> []" and "hd p = CHR ''/''"
  shows "truediv dp p = parse_path p"
proof -
  from assms obtain cs where p: "p = CHR ''/'' # cs"
    by (cases p) auto
  have "root (parse_path p) \<noteq> []"
    unfolding p by (simp add: parse_path_def Let_def)
  then show ?thesis
    by (simp add: truediv_def Let_def)
qed

text \<open>
  Claim C4, as amended. The commands are, in the order of the models, one for each
  model whose path is not blank, and none for the others. Each command is \<open>ln -s\<close>, the
  quoted string of the path \<open>data_path / "models" / path\<close> as \<open>pathlib\<close> joins it, and a
  dot. For a data path with at least one component and a storage path in normal form
  the quoted string is the data path, \<open>/models/\<close> and the storage path. For an absolute
  storage path it is that path alone, as \<open>pathlib\<close> writes it: the data path and
  \<open>models\<close> are replaced. For the models A (\<open>x/a.pt\<close>), B (no path) and C (\<open>y/c.pt\<close>)
  under \<open>/data\<close> the commands are the two for A and C.
\<close>

theorem symlink_commands_in_order:
  "symlink_commands dp ms
     = map (\<lambda>m. symlink_command dp (path m)) (filter (\<lambda>m. \<not> blank (path m)) ms)
   \<and> symlink_command dp p
     = ''ln -s '' @ [CHR 0x22] @ str_of_path (truediv (truediv dp ''models'') p)
       @ [CHR 0x22] @ '' .''
   \<and> (relative_normal p \<and> parts (parse_path raw) \<noteq> [] \<longrightarrow>
        symlink_command (parse_path raw) p
        = ''ln -s '' @ [CHR 0x22] @ str_of_path (parse_path raw) @ ''/models/'' @ p
          @ [CHR 0x22] @ '' .'')
   \<and> (p \<noteq> [] \<and> hd p = CHR ''/'' \<longrightarrow>
        symlink_command dp p
        = ''ln -s '' @ [CHR 0x22] @ str_of_path (parse_path p) @ [CHR 0x22] @ '' .'')
   \<and> symlink_commands (parse_path ''/data'') abc_models
     = [''ln -s '' @ [CHR 0x22] @ ''/data/models/x/a.pt'' @ [CHR 0x22] @ '' .'',
        ''ln -s '' @ [CHR 0x22] @ ''/data/models/y/c.pt'' @ [CHR 0x22] @ '' .'']"
proof (intro conjI impI)
  show "symlink_commands dp ms
     = map (\<lambda>m. symlink_command dp (path m)) (filter (\<lambda>m. \<not> blank (path m)) ms)"
    by (rule symlink_commands_map_filter)
  show "symlink_command dp p
     = ''ln -s '' @ [CHR 0x22] @ str_of_path (truediv (truediv dp ''models'') p)
       @ [CHR 0x22] @ '' .''"
    by (simp add: symlink_command_def)
  show "symlink_command (parse_path raw) p
        = ''ln -s '' @ [CHR 0x22] @ str_of_path (parse_path raw) @ ''/models/'' @ p
          @ [CHR 0x22] @ '' .''"
    if h: "relative_normal p \<and> parts (parse_path raw) \<noteq> []"
  proof -
    from h have "str_of_path (truediv (truediv (parse_path raw) ''models'') p)
         = str_of_path (parse_path raw) @ ''/models/'' @ p"
      by (intro str_of_path_join str_of_parsed_nonempty) simp_all
    then show ?thesis by (simp add: symlink_command_def)
  qed
  show "symlink_command dp p
        = ''ln -s '' @ [CHR 0x22] @ str_of_path (parse_path p) @ [CHR 0x22] @ '' .''"
    if h: "p \<noteq> [] \<and> hd p = CHR ''/''"
  proof -
    from h have "truediv (truediv dp ''models'') p = parse_path p"
      by (intro truediv_absolute) simp_all
    then show ?thesis by (simp add: symlink_command_def)
  qed
  show "symlink_commands (parse_path ''/data'') abc_models
     = [''ln -s '' @ [CHR 0x22] @ ''/data/models/x/a.pt'' @ [CHR 0x22] @ '' .'',
        ''ln -s '' @ [CHR 0x22] @ ''/data/models/y/c.pt'' @ [CHR 0x22] @ '' .'']"
    by (rule abc_commands)
qed

theorem symlink_commands_in_order_witness:
  "symlink_command (parse_path ''/data'') ''x/a.pt''
   = ''ln -s '' @ [CHR 0x22] @ ''/data/models/x/a.pt'' @ [CHR 0x22] @ '' .''
   \<and> symlink_command (parse_path ''/data'') ''/abs/a.pt''
   = ''ln -s '' @ [CHR 0x22] @ ''/abs/a.pt'' @ [CHR 0x22] @ '' .''"
proof -
  have h: "relative_normal ''x/a.pt'' \<and> parts (parse_path ''/data'') \<noteq> []"
    by (simp add: relative_normal_def is_part_def data_path_parsed)
  have s: "str_of_path (parse_path ''/data'') = ''/data''"
    by (simp add: data_path_parsed str_of_path_def)
  have g: "''/abs/a.pt'' \<noteq> [] \<and> hd ''/abs/a.pt'' = CHR ''/''"
    by simp
  have a: "str_of_path (parse_path ''/abs/a.pt'') = ''/abs/a.pt''"
    by code_simp
  from symlink_commands_in_order
    [where dp = "parse_path ''/data''" and ms = abc_models and p = "''x/a.pt''"
      and raw = "''/data''"] h
  have 1: "symlink_command (parse_path ''/data'') ''x/a.pt''
        = ''ln -s '' @ [CHR 0x22] @ str_of_path (parse_path ''/data'') @ ''/models/'' @ ''x/a.pt''
          @ [CHR 0x22] @ '' .''"
    by blast
  from symlink_commands_in_order
    [where dp = "parse_path ''/data''" and ms = abc_models and p = "''/abs/a.pt''"
      and raw = "''/data''"] g
  have 2: "symlink_command (parse_path ''/data'') ''/abs/a.pt''
        = ''ln -s '' @ [CHR 0x22] @ str_of_path (parse_path ''/abs/a.pt'') @ [CHR 0x22] @ '' .''"
    by blast
  from 1 2 show ?thesis unfolding s a by simp
qed

text \<open>
  The claim as it was stated fails in four ways, each at one model under one data path.
  An absolute storage path replaces the data path: the command does not name
  \<open>/data/models\<close> at all. A storage path that is not in normal form is not kept as it is:
  of \<open>x//a.pt\<close>, with an empty component, and of \<open>x/./a.pt\<close>, with a component that is a
  dot, the command names \<open>x/a.pt\<close>. And under the data path \<open>/\<close>, which has no component,
  the command names \<open>/models/x/a.pt\<close>, not \<open>//models/x/a.pt\<close>.
\<close>

theorem symlink_absolute_path_counterexample:
  "symlink_commands (parse_path ''/data'')
     [\<lparr>name = ''A'', type = ''lora'', subtype = ''sdxl'', triggers = [], path = ''/abs/a.pt''\<rparr>]
   = [''ln -s '' @ [CHR 0x22] @ ''/abs/a.pt'' @ [CHR 0x22] @ '' .'']
   \<and> symlink_commands (parse_path ''/data'')
     [\<lparr>name = ''A'', type = ''lora'', subtype = ''sdxl'', triggers = [], path = ''/abs/a.pt''\<rparr>]
   \<noteq> [''ln -s '' @ [CHR 0x22] @ str_of_path (parse_path ''/data'') @ ''/models/''
        @ ''/abs/a.pt'' @ [CHR 0x22] @ '' .'']
   \<and> symlink_commands (parse_path ''/data'')
     [\<lparr>name = ''A'', type = ''lora'', subtype = ''sdxl'', triggers = [], path = ''x//a.pt''\<rparr>]
   = [''ln -s '' @ [CHR 0x22] @ ''/data/models/x/a.pt'' @ [CHR 0x22] @ '' .'']
   \<and> symlink_commands (parse_path ''/data'')
     [\<lparr>name = ''A'', type = ''lora'', subtype = ''sdxl'', triggers = [], path = ''x//a.pt''\<rparr>]
   \<noteq> [''ln -s '' @ [CHR 0x22] @ str_of_path (parse_path ''/data'') @ ''/models/''
        @ ''x//a.pt'' @ [CHR 0x22] @ '' .'']
   \<and> symlink_commands (parse_path ''/data'')
     [\<lparr>name = ''A'', type = ''lora'', subtype = ''sdxl'', triggers = [], path = ''x/./a.pt''\<rparr>]
   = [''ln -s '' @ [CHR 0x22] @ ''/data/models/x/a.pt'' @ [CHR 0x22] @ '' .'']
   \<and> symlink_commands (parse_path ''/data'')
     [\<lparr>name = ''A'', type = ''lora'', subtype = ''sdxl'', triggers = [], path = ''x/./a.pt''\<rparr>]
   \<noteq> [''ln -s '' @ [CHR 0x22] @ str_of_path (parse_path ''/data'') @ ''/models/''
        @ ''x/./a.pt'' @ [CHR 0x22] @ '' .'']
   \<and> symlink_commands (parse_path ''/'')
     [\<lparr>name = ''A'', type = ''lora'', subtype = ''sdxl'', triggers = [], path = ''x/a.pt''\<rparr>]
   = [''ln -s '' @ [CHR 0x22] @ ''/models/x/a.pt'' @ [CHR 0x22] @ '' .'']
   \<and> symlink_commands (parse_path ''/'')
     [\<lparr>name = ''A'', type = ''lora'', subtype = ''sdxl'', triggers = [], path = ''x/a.pt''\<rparr>]
   \<noteq> [''ln -s '' @ [CHR 0x22] @ str_of_path (parse_path ''/'') @ ''/models/''
        @ ''x/a.pt'' @ [CHR 0x22] @ '' .'']"
  by code_simp

section \<open>Trigger phrases\<close>









lemma parse_triggers_number: "parse_triggers loads str_of (SqlInteger i) = Inr []"
  by (simp add: parse_triggers_def try_body_def)








text \<open>
  In general, an exception of \<open>json.loads\<close> that the \<open>except\<close> clause does not name, such
  as a plain \<open>ValueError\<close> or a \<open>RecursionError\<close>, leaves the \<open>try\<close> statement, and an
  exception of the loop leaves \<open>load_models\<close>: the whole load fails.
\<close>

lemma load_row_uncaught:
  "trigger_phrases_json r = SqlText s \<Longrightarrow> s \<noteq> [] \<Longrightarrow> loads s = Inl e \<Longrightarrow> \<not> caught e \<Longrightarrow>
   load_row loads str_of r = Inl e"
  by (simp add: load_row_def parse_triggers_def try_body_def)

lemma load_rows_raises:
  "load_row loads str_of r = Inl e \<Longrightarrow>
   load_models loads str_of db True (Inr (r # rs)) = Inl e"
  by (simp add: load_models_def)

end
